theory Spec2Isabelle
  imports Main
begin

section \<open>JavaScript values and strings\<close>

text \<open>
  The values the plugin inspects at run time: a route name is tested with
  \<^verbatim>\<open>typeof\<close>, the route-meta field \<^verbatim>\<open>gtm\<close> with \<^verbatim>\<open>typeof\<close> and \<^verbatim>\<open>!!\<close>, and the
  meta field \<^verbatim>\<open>gtmAdditionalEventData\<close> (of type \<^verbatim>\<open>any\<close>) is spread into an
  object literal. Numbers are restricted to integers; no operation of the
  plugin computes with them. An object is the map of its own enumerable
  properties.
\<close>

datatype jsval =
    JUndefined
  | JNull
  | JBool bool
  | JNum int
  | JStr string
  | JObj "string \<Rightarrow> jsval option"

type_synonym props = "string \<Rightarrow> jsval option"

text \<open>\<^verbatim>\<open>typeof v\<close>.\<close>

fun typeof :: "jsval \<Rightarrow> string" where
  "typeof JUndefined = ''undefined''"
| "typeof JNull = ''object''"
| "typeof (JBool b) = ''boolean''"
| "typeof (JNum n) = ''number''"
| "typeof (JStr s) = ''string''"
| "typeof (JObj m) = ''object''"

text \<open>\<^verbatim>\<open>!!v\<close>, the truthiness of a value.\<close>

fun truthy :: "jsval \<Rightarrow> bool" where
  "truthy JUndefined = False"
| "truthy JNull = False"
| "truthy (JBool b) = b"
| "truthy (JNum n) = (n \<noteq> 0)"
| "truthy (JStr s) = (s \<noteq> [])"
| "truthy (JObj m) = True"

text \<open>Reading the property \<^verbatim>\<open>k\<close> of an object: \<^verbatim>\<open>undefined\<close> when it has none.\<close>

definition get_prop :: "props \<Rightarrow> string \<Rightarrow> jsval" where
  "get_prop m k = (case m k of None \<Rightarrow> JUndefined | Some v \<Rightarrow> v)"

text \<open>
  \<^verbatim>\<open>String.prototype.endsWith\<close>, \<^verbatim>\<open>startsWith\<close> and \<^verbatim>\<open>substring\<close> with one
  argument. A character stands for one code unit of the string.
\<close>

definition endsWith :: "string \<Rightarrow> string \<Rightarrow> bool" where
  "endsWith s x = (length x \<le> length s \<and> drop (length s - length x) s = x)"

definition startsWith :: "string \<Rightarrow> string \<Rightarrow> bool" where
  "startsWith s x = (take (length x) s = x)"

definition substring :: "string \<Rightarrow> nat \<Rightarrow> string" where
  "substring s n = drop n s"

text \<open>The decimal numeral of an array index, as a property key.\<close>

fun index_key :: "nat \<Rightarrow> string" where
  "index_key n =
     (if n < 10 then [''0123456789'' ! n]
      else index_key (n div 10) @ [''0123456789'' ! (n mod 10)])"

text \<open>
  The properties an object-literal spread \<^verbatim>\<open>{...v}\<close> copies: nothing for
  \<^verbatim>\<open>undefined\<close>, \<^verbatim>\<open>null\<close>, a boolean or a number, the own properties of an
  object, and the indexed characters of a string.
\<close>

fun own_props :: "jsval \<Rightarrow> props" where
  "own_props (JObj m) = m"
| "own_props (JStr s) =
     map_of (zip (map index_key [0..<length s]) (map (\<lambda>c. JStr [c]) s))"
| "own_props _ = Map.empty"

section \<open>Routes, the router and the plugin's options\<close>

text \<open>
  A \<^verbatim>\<open>Route\<close> of vue-router, with the fields the guard reads: \<^verbatim>\<open>name\<close>
  (\<^verbatim>\<open>string | null | undefined\<close>), \<^verbatim>\<open>fullPath\<close> and the optional \<^verbatim>\<open>meta\<close> object.
\<close>

record route =
  name :: jsval
  fullPath :: string
  meta :: "props option"

text \<open>The router: \<^verbatim>\<open>vueRouter.options.base\<close>, an optional string.\<close>

record router =
  base :: "string option"

text \<open>
  What the additional-event-data callback hands back: a record, a promise of
  one (fulfilled, rejected or never settled), or an exception.
\<close>

datatype promise = Fulfils props | Rejects jsval | NeverSettles

datatype derived = Returns props | ReturnsPromise promise | Throws jsval

text \<open>\<^verbatim>\<open>ignoredViews?: string[] | ((to: Route, from: Route) => boolean)\<close>.\<close>

datatype ignored_views =
    IgnoreList "string list"
  | IgnorePred "route \<Rightarrow> route \<Rightarrow> bool"

text \<open>
  \<^verbatim>\<open>GtmQueryParams\<close>, and an element of the \<^verbatim>\<open>id\<close> array: a plain string or a
  \<^verbatim>\<open>GtmIdContainer\<close> \<^verbatim>\<open>{ id, queryParams? }\<close>.
\<close>

type_synonym query_params = "string \<Rightarrow> string option"

datatype id_entry =
    IdString string
  | IdContainer string "query_params option"

datatype gtm_id = SingleId string | IdArray "id_entry list"

text \<open>
  An own property of an object literal that the spread either finds or does
  not find; a property that is found may hold \<^verbatim>\<open>undefined\<close>.
\<close>

datatype 'a own = Absent | Own "'a option"

fun read_own :: "'a own \<Rightarrow> 'a option" where
  "read_own Absent = None"
| "read_own (Own v) = v"

text \<open>
  \<^verbatim>\<open>VueGtmUseOptions\<close>. The fields this code reads are explicit; every other
  property of \<^verbatim>\<open>GtmSupportOptions\<close> is kept in \<open>other\<close>. An optional field is
  \<open>None\<close> when reading it yields \<^verbatim>\<open>undefined\<close>.
\<close>

record options =
  gtm_id :: gtm_id
  queryParams :: "query_params option"
  vueRouter :: "router option"
  vueRouterAdditionalEventData :: "(route \<Rightarrow> route \<Rightarrow> derived) option"
  ignoredViews :: "ignored_views option"
  trackOnNextTick :: "bool own"
  other :: props

text \<open>
  The \<^verbatim>\<open>GtmSupport\<close> instance of \<^verbatim>\<open>@gtm-support/core\<close>, as far as \<open>install\<close>
  looks at it: \<^verbatim>\<open>isInBrowserContext()\<close>, \<^verbatim>\<open>options.enabled\<close> and
  \<^verbatim>\<open>options.loadScript\<close>. Its constructor belongs to that library and is a
  parameter of \<open>install\<close>.
\<close>

record gtm_plugin =
  isInBrowserContext :: bool
  options_enabled :: bool
  options_loadScript :: bool

section \<open>The state the plugin acts on\<close>

text \<open>
  The closure registered with \<^verbatim>\<open>vueRouter.afterEach\<close> captures the router,
  the ignore filter, the deferral flag and the callback.
\<close>

record guard =
  guard_vueRouter :: router
  guard_ignoredViews :: ignored_views
  guard_trackOnNextTick :: "bool option"
  guard_deriveAdditionalEventData :: "route \<Rightarrow> route \<Rightarrow> derived"

type_synonym track_args = "string \<times> string \<times> props"

text \<open>
  The module-level singleton \<^verbatim>\<open>gtmPlugin\<close>, the two accessors on the
  framework, and the calls made to the collaborators, in order: hooks
  registered with \<^verbatim>\<open>afterEach\<close>, \<^verbatim>\<open>console.warn\<close>, \<^verbatim>\<open>loadScript\<close>,
  \<^verbatim>\<open>trackView\<close>, and the callbacks handed to \<^verbatim>\<open>Vue.nextTick\<close> that have not run
  yet (each callback is the \<^verbatim>\<open>trackView\<close> call it will make).
\<close>

record world =
  gtmPlugin :: "gtm_plugin option"
  Vue_prototype_gtm :: "gtm_plugin option"
  Vue_gtm :: "gtm_plugin option"
  afterEach_hooks :: "guard list"
  console_warnings :: "string list"
  loadScript_calls :: "(string \<times> options) list"
  trackView_calls :: "track_args list"
  Vue_nextTick :: "track_args list"

text \<open>Before \<open>install\<close> has run.\<close>

definition initial_world :: world where
  "initial_world =
     \<lparr> gtmPlugin = None, Vue_prototype_gtm = None, Vue_gtm = None,
       afterEach_hooks = [], console_warnings = [], loadScript_calls = [],
       trackView_calls = [], Vue_nextTick = [] \<rparr>"

section \<open>The collaborators' operations\<close>

text \<open>
  \<^verbatim>\<open>loadScript(id, config)\<close>, \<^verbatim>\<open>console.warn(message)\<close> and
  \<^verbatim>\<open>vueRouter.afterEach(hook)\<close> belong to the collaborators; each call is
  recorded with its arguments and taken to return.
\<close>

definition loadScript :: "string \<Rightarrow> options \<Rightarrow> world \<Rightarrow> world" where
  "loadScript i conf w = w\<lparr> loadScript_calls := loadScript_calls w @ [(i, conf)] \<rparr>"

definition console_warn :: "string \<Rightarrow> world \<Rightarrow> world" where
  "console_warn msg w = w\<lparr> console_warnings := console_warnings w @ [msg] \<rparr>"

definition afterEach :: "guard \<Rightarrow> world \<Rightarrow> world" where
  "afterEach g w = w\<lparr> afterEach_hooks := afterEach_hooks w @ [g] \<rparr>"

text \<open>
  \<^verbatim>\<open>gtmPlugin?.trackView(name, fullUrl, additionalEventData)\<close>: the call is made
  on the singleton when there is one, and nothing happens otherwise.
\<close>

definition trackView :: "track_args \<Rightarrow> world \<Rightarrow> world" where
  "trackView args w =
     (case gtmPlugin w of
        None \<Rightarrow> w
      | Some p \<Rightarrow> w\<lparr> trackView_calls := trackView_calls w @ [args] \<rparr>)"

text \<open>
  \<^verbatim>\<open>Vue.nextTick(() => { gtmPlugin?.trackView(...) })\<close> queues the callback;
  the framework runs the queued callbacks, first in first out, at its next
  tick.
\<close>

definition nextTick :: "track_args \<Rightarrow> world \<Rightarrow> world" where
  "nextTick args w = w\<lparr> Vue_nextTick := Vue_nextTick w @ [args] \<rparr>"

definition run_nextTick :: "world \<Rightarrow> world" where
  "run_nextTick w = fold trackView (Vue_nextTick w) (w\<lparr> Vue_nextTick := [] \<rparr>)"

section \<open>The navigation guard\<close>

text \<open>
  The test that opens the hook (lines 123 to 127):
  \<^verbatim>\<open>typeof to.name !== 'string' ||
  (Array.isArray(ignoredViews) && ignoredViews.includes(to.name)) ||
  (typeof ignoredViews === 'function' && ignoredViews(to, from))\<close>.
\<close>

definition ignored_route :: "ignored_views \<Rightarrow> route \<Rightarrow> route \<Rightarrow> bool" where
  "ignored_route iv to from =
     (typeof (name to) \<noteq> ''string''
      \<or> (case iv of IgnoreList xs \<Rightarrow> name to \<in> set (map JStr xs) | IgnorePred p \<Rightarrow> False)
      \<or> (case iv of IgnoreList xs \<Rightarrow> False | IgnorePred p \<Rightarrow> p to from))"

text \<open>
  The event name (lines 132 to 135), for a route whose name is the string \<open>n\<close>:
  \<^verbatim>\<open>to.meta && typeof to.meta.gtm === 'string' && !!to.meta.gtm ? to.meta.gtm : to.name\<close>.
\<close>

definition event_name :: "route \<Rightarrow> string \<Rightarrow> string" where
  "event_name to n =
     (case meta to of
        None \<Rightarrow> n
      | Some m \<Rightarrow>
          (let gtm = get_prop m ''gtm'' in
           if typeof gtm = ''string'' \<and> truthy gtm
           then (case gtm of JStr s \<Rightarrow> s | _ \<Rightarrow> n)
           else n))"

text \<open>
  The event data (lines 136 to 139), from the awaited value \<open>d\<close> of the
  callback: \<^verbatim>\<open>{ ...d, ...to.meta?.gtmAdditionalEventData }\<close>.
\<close>

definition additionalEventData :: "props \<Rightarrow> route \<Rightarrow> props" where
  "additionalEventData d to =
     d ++ own_props (case meta to of
                       None \<Rightarrow> JUndefined
                     | Some m \<Rightarrow> get_prop m ''gtmAdditionalEventData'')"

text \<open>The URL (lines 140 to 147).\<close>

definition fullUrl :: "router \<Rightarrow> route \<Rightarrow> string" where
  "fullUrl r to =
     (let baseUrl = (case base r of None \<Rightarrow> [] | Some b \<Rightarrow> b);
          fullUrl = (if \<not> endsWith baseUrl ''/'' then baseUrl @ ''/'' else baseUrl)
      in fullUrl @ (if startsWith (fullPath to) ''/''
                    then substring (fullPath to) 1
                    else fullPath to))"

text \<open>The dispatch (lines 149 to 155).\<close>

definition dispatch :: "bool option \<Rightarrow> track_args \<Rightarrow> world \<Rightarrow> world" where
  "dispatch tick args w =
     (if tick = Some True then nextTick args w else trackView args w)"

text \<open>
  The hook is an \<^verbatim>\<open>async\<close> function with one \<^verbatim>\<open>await\<close>. Up to the \<^verbatim>\<open>await\<close>
  it runs when the router calls it: it returns at once for an ignored route,
  and otherwise fixes the event name and calls the callback. Its promise is
  rejected when the callback throws; else the hook is suspended on the
  callback's result.
\<close>

datatype suspension =
    Returned
  | Raised jsval
  | Awaiting string promise

definition handler_begin :: "guard \<Rightarrow> route \<Rightarrow> route \<Rightarrow> suspension" where
  "handler_begin g to from =
     (if ignored_route (guard_ignoredViews g) to from then Returned
      else
        (case name to of
           JStr n \<Rightarrow>
             (case guard_deriveAdditionalEventData g to from of
                Throws e \<Rightarrow> Raised e
              | Returns d \<Rightarrow> Awaiting (event_name to n) (Fulfils d)
              | ReturnsPromise p \<Rightarrow> Awaiting (event_name to n) p)
         | _ \<Rightarrow> Returned))"

text \<open>
  After the \<^verbatim>\<open>await\<close> has produced \<open>d\<close>, the hook builds the event data and
  the URL and dispatches, in the state it finds then.
\<close>

definition handler_resume :: "guard \<Rightarrow> route \<Rightarrow> string \<Rightarrow> props \<Rightarrow> world \<Rightarrow> world" where
  "handler_resume g to n d w =
     dispatch (guard_trackOnNextTick g)
       (n, fullUrl (guard_vueRouter g) to, additionalEventData d to) w"

text \<open>
  How the hook's promise ends, and the hook run from the router's call to
  that end: resolved, rejected with the callback's error, or left pending with
  a promise that never settles.
\<close>

datatype completion = Resolved | Rejected jsval | Pending

definition afterEach_handler :: "guard \<Rightarrow> route \<Rightarrow> route \<Rightarrow> world \<Rightarrow> completion \<times> world" where
  "afterEach_handler g to from w =
     (case handler_begin g to from of
        Returned \<Rightarrow> (Resolved, w)
      | Raised e \<Rightarrow> (Rejected e, w)
      | Awaiting n p \<Rightarrow>
          (case p of
             Fulfils d \<Rightarrow> (Resolved, handler_resume g to n d w)
           | Rejects e \<Rightarrow> (Rejected e, w)
           | NeverSettles \<Rightarrow> (Pending, w)))"

text \<open>
  \<open>initVueRouterGuard\<close> (lines 107 to 157). A router that is \<open>None\<close> is a
  falsy argument. The defaults of the parameters \<^verbatim>\<open>ignoredViews = []\<close> and
  \<^verbatim>\<open>deriveAdditionalEventData = () => ({})\<close> replace \<^verbatim>\<open>undefined\<close>.
\<close>

definition missing_router_warning :: string where
  "missing_router_warning =
     ''[VueGtm]: You tried to register 'vueRouter' for vue-gtm, but 'vue-router' was not found.''"

definition initVueRouterGuard ::
  "router option \<Rightarrow> ignored_views option \<Rightarrow> bool option
    \<Rightarrow> (route \<Rightarrow> route \<Rightarrow> derived) option \<Rightarrow> world \<Rightarrow> world" where
  "initVueRouterGuard vueRouter' ignoredViews' trackOnNextTick' deriveAdditionalEventData w =
     (case vueRouter' of
        None \<Rightarrow> console_warn missing_router_warning w
      | Some r \<Rightarrow>
          afterEach
            \<lparr> guard_vueRouter = r,
              guard_ignoredViews = (case ignoredViews' of None \<Rightarrow> IgnoreList [] | Some iv \<Rightarrow> iv),
              guard_trackOnNextTick = trackOnNextTick',
              guard_deriveAdditionalEventData =
                (case deriveAdditionalEventData of
                   None \<Rightarrow> (\<lambda>to from. Returns Map.empty)
                 | Some f \<Rightarrow> f) \<rparr>
            w)"

section \<open>Installation\<close>

text \<open>
  The parameter default \<^verbatim>\<open>options = { id: '' }\<close> (line 48) and the merge
  \<^verbatim>\<open>{ trackOnNextTick: false, ...options }\<close> (line 51).
\<close>

definition default_options :: options where
  "default_options =
     \<lparr> gtm_id = SingleId [], queryParams = None, vueRouter = None,
       vueRouterAdditionalEventData = None, ignoredViews = None,
       trackOnNextTick = Absent, other = Map.empty \<rparr>"

definition effective_options :: "options option \<Rightarrow> options" where
  "effective_options arg =
     (let options = (case arg of None \<Rightarrow> default_options | Some opts \<Rightarrow> opts)
      in options\<lparr> trackOnNextTick :=
                    (case trackOnNextTick options of
                       Absent \<Rightarrow> Own (Some False)
                     | Own v \<Rightarrow> Own v) \<rparr>)"

text \<open>The body of the \<^verbatim>\<open>forEach\<close> over the id array (lines 73 to 90).\<close>

definition load_id :: "options \<Rightarrow> id_entry \<Rightarrow> world \<Rightarrow> world" where
  "load_id options i w =
     (case i of
        IdString s \<Rightarrow> loadScript s options w
      | IdContainer cid cparams \<Rightarrow>
          (let newConf = options;
               newConf = (case cparams of
                            None \<Rightarrow> newConf
                          | Some q \<Rightarrow>
                              newConf\<lparr> queryParams :=
                                Some ((case queryParams newConf of
                                         None \<Rightarrow> Map.empty
                                       | Some g \<Rightarrow> g) ++ q) \<rparr>)
           in loadScript cid newConf w))"

text \<open>
  \<open>install\<close> (lines 46 to 96). \<open>new_GtmPlugin\<close> is the constructor of the
  collaborator's class; \<open>arg\<close> is \<open>None\<close> when the options are omitted.
\<close>

definition install :: "(options \<Rightarrow> gtm_plugin) \<Rightarrow> options option \<Rightarrow> world \<Rightarrow> world" where
  "install new_GtmPlugin arg w =
     (let options = effective_options arg;
          plugin = new_GtmPlugin options;
          w = w\<lparr> gtmPlugin := Some plugin, Vue_gtm := Some plugin,
                 Vue_prototype_gtm := Some plugin \<rparr>
      in if isInBrowserContext plugin then
           (let w = (case vueRouter options of
                       None \<Rightarrow> w
                     | Some r \<Rightarrow>
                         initVueRouterGuard (Some r) (ignoredViews options)
                           (read_own (trackOnNextTick options))
                           (vueRouterAdditionalEventData options) w)
            in if options_enabled plugin \<and> options_loadScript plugin then
                 (case gtm_id options of
                    IdArray ids \<Rightarrow> fold (load_id options) ids w
                  | SingleId s \<Rightarrow> loadScript s options w)
               else w)
         else w)"

text \<open>\<open>useGtm\<close> (lines 205 to 207) returns the singleton.\<close>

definition useGtm :: "world \<Rightarrow> gtm_plugin option" where
  "useGtm w = gtmPlugin w"

section \<open>The specification's formulas\<close>

text \<open>
  The value an \<^verbatim>\<open>await\<close> of the callback's result produces, when it produces
  one: the record itself, or the record a promise is fulfilled with.
\<close>

fun awaited :: "derived \<Rightarrow> props option" where
  "awaited (Returns d) = Some d"
| "awaited (ReturnsPromise (Fulfils d)) = Some d"
| "awaited (ReturnsPromise (Rejects e)) = None"
| "awaited (ReturnsPromise NeverSettles) = None"
| "awaited (Throws e) = None"

text \<open>
  The URL in the specification's words: the base path, empty when absent; one
  \<^verbatim>\<open>/\<close> appended unless the base already ends with one; then the full path
  without one leading \<^verbatim>\<open>/\<close>.
\<close>

definition spec_fullUrl :: "string option \<Rightarrow> string \<Rightarrow> string" where
  "spec_fullUrl b p =
     (let s = (case b of None \<Rightarrow> [] | Some x \<Rightarrow> x)
      in s @ (if s \<noteq> [] \<and> last s = CHR ''/'' then [] else ''/'')
           @ (case p of [] \<Rightarrow> [] | c # cs \<Rightarrow> if c = CHR ''/'' then cs else c # cs))"

text \<open>
  The event name in the specification's words: the meta field \<^verbatim>\<open>gtm\<close> when the
  route has a meta object whose \<^verbatim>\<open>gtm\<close> is a non-empty string, and the route
  name \<open>n\<close> otherwise.
\<close>

definition spec_event_name :: "route \<Rightarrow> string \<Rightarrow> string" where
  "spec_event_name to n =
     (case meta to of
        None \<Rightarrow> n
      | Some m \<Rightarrow>
          (case m ''gtm'' of
             Some (JStr s) \<Rightarrow> if s = [] then n else s
           | _ \<Rightarrow> n))"

text \<open>
  A shallow merge of \<open>upper\<close> over \<open>lower\<close>: key by key, the value of \<open>upper\<close>
  where it has the key, and the value of \<open>lower\<close> elsewhere.
\<close>

definition shallow_merge :: "('k \<Rightarrow> 'v option) \<Rightarrow> ('k \<Rightarrow> 'v option) \<Rightarrow> 'k \<Rightarrow> 'v option" where
  "shallow_merge lower upper k = (case upper k of Some v \<Rightarrow> Some v | None \<Rightarrow> lower k)"

text \<open>
  The properties of the meta field \<^verbatim>\<open>gtmAdditionalEventData\<close>; none when the
  route has no meta object or the meta object has no such field.
\<close>

definition meta_event_data :: "route \<Rightarrow> props" where
  "meta_event_data to =
     (case meta to of
        None \<Rightarrow> Map.empty
      | Some m \<Rightarrow>
          (case m ''gtmAdditionalEventData'' of
             None \<Rightarrow> Map.empty
           | Some v \<Rightarrow> own_props v))"

text \<open>
  The script load the specification asks for one element of the id array: a
  plain string with the configuration as it is, a structured id with its
  query parameters merged over the configuration's.
\<close>

fun spec_load :: "options \<Rightarrow> id_entry \<Rightarrow> string \<times> options" where
  "spec_load conf (IdString s) = (s, conf)"
| "spec_load conf (IdContainer cid None) = (cid, conf)"
| "spec_load conf (IdContainer cid (Some q)) =
     (cid, conf\<lparr> queryParams :=
             Some (shallow_merge
                     (case queryParams conf of None \<Rightarrow> Map.empty | Some g \<Rightarrow> g) q) \<rparr>)"

section \<open>A sample installation\<close>

text \<open>
  Two constructors for the collaborator's class, one for a browser and one
  for a rendering context without a window, and an installation with a
  router, a callback, an ignore list and two container ids.
\<close>

definition browser_GtmPlugin :: "options \<Rightarrow> gtm_plugin" where
  "browser_GtmPlugin opts =
     \<lparr> isInBrowserContext = True, options_enabled = True, options_loadScript = True \<rparr>"

definition server_GtmPlugin :: "options \<Rightarrow> gtm_plugin" where
  "server_GtmPlugin opts =
     \<lparr> isInBrowserContext = False, options_enabled = True, options_loadScript = True \<rparr>"

definition example_router :: router where
  "example_router = \<lparr> base = Some ''/app'' \<rparr>"

definition example_derive :: "route \<Rightarrow> route \<Rightarrow> derived" where
  "example_derive to from = Returns [''x'' \<mapsto> JNum 1]"

definition example_options :: options where
  "example_options =
     \<lparr> gtm_id = IdArray [IdString ''GTM-A1'', IdContainer ''GTM-1'' (Some [''a'' \<mapsto> ''1''])],
       queryParams = Some [''a'' \<mapsto> ''0'', ''b'' \<mapsto> ''2''],
       vueRouter = Some example_router,
       vueRouterAdditionalEventData = Some example_derive,
       ignoredViews = Some (IgnoreList [''admin'']),
       trackOnNextTick = Absent,
       other = Map.empty \<rparr>"

definition example_guard :: guard where
  "example_guard =
     \<lparr> guard_vueRouter = example_router,
       guard_ignoredViews = IgnoreList [''admin''],
       guard_trackOnNextTick = Some False,
       guard_deriveAdditionalEventData = example_derive \<rparr>"

definition example_world :: world where
  "example_world = install browser_GtmPlugin (Some example_options) initial_world"

text \<open>Three routes: one with the meta fields, one named by the empty string, one unnamed.\<close>

definition checkout_route :: route where
  "checkout_route =
     \<lparr> name = JStr ''cart'', fullPath = ''/c'',
       meta = Some [''gtm'' \<mapsto> JStr ''Checkout'',
                    ''gtmAdditionalEventData'' \<mapsto> JObj [''x'' \<mapsto> JNum 2, ''y'' \<mapsto> JNum 3]] \<rparr>"

definition empty_name_route :: route where
  "empty_name_route = \<lparr> name = JStr [], fullPath = ''/c'', meta = None \<rparr>"

definition unnamed_route :: route where
  "unnamed_route = \<lparr> name = JNull, fullPath = ''/'', meta = None \<rparr>"

section \<open>Auxiliary facts\<close>

subsection \<open>Strings and merges\<close>

lemma endsWith_slash: "endsWith s ''/'' \<longleftrightarrow> s \<noteq> [] \<and> last s = CHR ''/''"
proof (cases s rule: rev_cases)
  case Nil
  then show ?thesis by (simp add: endsWith_def)
next
  case (snoc ys y)
  then show ?thesis by (simp add: endsWith_def)
qed

lemma strip_leading_slash:
  "(if startsWith p ''/'' then substring p 1 else p) =
     (case p of [] \<Rightarrow> [] | c # cs \<Rightarrow> if c = CHR ''/'' then cs else c # cs)"
  by (cases p) (simp_all add: startsWith_def substring_def)

lemma fullUrl_spec: "fullUrl r to = spec_fullUrl (base r) (fullPath to)"
  unfolding fullUrl_def spec_fullUrl_def Let_def strip_leading_slash endsWith_slash
  by simp

lemma event_name_spec: "event_name to n = spec_event_name to n"
proof (cases "meta to")
  case None
  then show ?thesis by (simp add: event_name_def spec_event_name_def)
next
  case (Some m)
  show ?thesis
  proof (cases "m ''gtm''")
    case None
    with Some show ?thesis
      by (simp add: event_name_def spec_event_name_def get_prop_def)
  next
    case (Some v)
    with \<open>meta to = Some m\<close> show ?thesis
      by (cases v) (simp_all add: event_name_def spec_event_name_def get_prop_def)
  qed
qed

lemma shallow_merge_map_add: "m ++ q = shallow_merge m q"
  by (rule ext) (simp add: map_add_def shallow_merge_def split: option.splits)

lemma additionalEventData_spec:
  "additionalEventData d to = shallow_merge d (meta_event_data to)"
proof (rule ext)
  fix k
  show "additionalEventData d to k = shallow_merge d (meta_event_data to) k"
    by (simp add: additionalEventData_def shallow_merge_def meta_event_data_def
        get_prop_def map_add_def split: option.splits)
qed

subsection \<open>The hook\<close>

lemma ignored_route_iff:
  "ignored_route iv to from \<longleftrightarrow>
     (\<forall>s. name to \<noteq> JStr s)
     \<or> (\<exists>xs s. iv = IgnoreList xs \<and> name to = JStr s \<and> s \<in> set xs)
     \<or> (\<exists>p. iv = IgnorePred p \<and> p to from)"
proof (cases iv)
  case (IgnoreList xs)
  then show ?thesis
    by (cases "name to") (auto simp add: ignored_route_def)
next
  case (IgnorePred p)
  then show ?thesis
    by (cases "name to") (auto simp add: ignored_route_def)
qed

lemma passes_filter_name:
  assumes "\<not> ignored_route iv to from"
  obtains n where "name to = JStr n"
  using assms by (cases "name to") (simp_all add: ignored_route_def)

lemma handler_ignored:
  assumes "ignored_route (guard_ignoredViews g) to from"
  shows "afterEach_handler g to from w = (Resolved, w)"
  using assms by (simp add: afterEach_handler_def handler_begin_def)

lemma handler_dispatches:
  assumes pass: "\<not> ignored_route (guard_ignoredViews g) to from"
      and val: "awaited (guard_deriveAdditionalEventData g to from) = Some d"
      and nm: "name to = JStr n"
  shows "afterEach_handler g to from w =
           (Resolved,
            dispatch (guard_trackOnNextTick g)
              (event_name to n, fullUrl (guard_vueRouter g) to, additionalEventData d to) w)"
proof (cases "guard_deriveAdditionalEventData g to from")
  case (Returns d')
  with val have "d' = d" by simp
  with Returns pass nm show ?thesis
    by (simp add: afterEach_handler_def handler_begin_def handler_resume_def)
next
  case (ReturnsPromise p)
  with val have "p = Fulfils d" by (cases p) simp_all
  with ReturnsPromise pass nm show ?thesis
    by (simp add: afterEach_handler_def handler_begin_def handler_resume_def)
next
  case (Throws e)
  with val show ?thesis by simp
qed

lemma fold_trackView_absent:
  assumes "gtmPlugin w = None"
  shows "fold trackView xs w = w"
  using assms by (induction xs) (simp_all add: trackView_def)

lemma fold_trackView_present:
  assumes "gtmPlugin w = Some p"
  shows "fold trackView xs w = w\<lparr> trackView_calls := trackView_calls w @ xs \<rparr>"
  using assms
proof (induction xs arbitrary: w)
  case Nil
  show ?case by simp
next
  case (Cons x xs)
  have "fold trackView (x # xs) w = fold trackView xs (trackView x w)" by simp
  also have "\<dots> = (trackView x w)\<lparr> trackView_calls := trackView_calls (trackView x w) @ xs \<rparr>"
    using Cons.prems by (intro Cons.IH) (simp add: trackView_def)
  also have "\<dots> = w\<lparr> trackView_calls := trackView_calls w @ x # xs \<rparr>"
    using Cons.prems by (simp add: trackView_def)
  finally show ?case .
qed

lemma run_nextTick_present:
  assumes "gtmPlugin w = Some p"
  shows "run_nextTick w =
           w\<lparr> Vue_nextTick := [], trackView_calls := trackView_calls w @ Vue_nextTick w \<rparr>"
proof -
  have "gtmPlugin (w\<lparr> Vue_nextTick := [] \<rparr>) = Some p"
    using assms by simp
  then have "fold trackView (Vue_nextTick w) (w\<lparr> Vue_nextTick := [] \<rparr>) =
      (w\<lparr> Vue_nextTick := [] \<rparr>)
        \<lparr> trackView_calls := trackView_calls (w\<lparr> Vue_nextTick := [] \<rparr>) @ Vue_nextTick w \<rparr>"
    by (rule fold_trackView_present)
  then show ?thesis by (simp add: run_nextTick_def)
qed

subsection \<open>Installation\<close>

lemma load_id_spec:
  "load_id conf i w = w\<lparr> loadScript_calls := loadScript_calls w @ [spec_load conf i] \<rparr>"
proof (cases i)
  case (IdString s)
  then show ?thesis by (simp add: load_id_def loadScript_def)
next
  case (IdContainer cid cparams)
  then show ?thesis
    by (cases cparams) (simp_all add: load_id_def loadScript_def shallow_merge_map_add)
qed

lemma fold_load_id:
  "fold (load_id conf) ids w =
     w\<lparr> loadScript_calls := loadScript_calls w @ map (spec_load conf) ids \<rparr>"
proof (induction ids arbitrary: w)
  case Nil
  show ?case by simp
next
  case (Cons i ids)
  have "fold (load_id conf) (i # ids) w = fold (load_id conf) ids (load_id conf i w)"
    by simp
  also have "\<dots> = (load_id conf i w)\<lparr> loadScript_calls :=
                 loadScript_calls (load_id conf i w) @ map (spec_load conf) ids \<rparr>"
    by (rule Cons.IH)
  also have "\<dots> = w\<lparr> loadScript_calls :=
                 loadScript_calls w @ map (spec_load conf) (i # ids) \<rparr>"
    by (simp add: load_id_spec)
  finally show ?case .
qed

lemma initVueRouterGuard_frame:
  "loadScript_calls (initVueRouterGuard r iv t f w) = loadScript_calls w"
  "gtmPlugin (initVueRouterGuard r iv t f w) = gtmPlugin w"
  "trackView_calls (initVueRouterGuard r iv t f w) = trackView_calls w"
  "Vue_nextTick (initVueRouterGuard r iv t f w) = Vue_nextTick w"
  by (cases r; simp add: initVueRouterGuard_def console_warn_def afterEach_def)+

lemma install_singleton:
  "gtmPlugin (install new_GtmPlugin arg w) = Some (new_GtmPlugin (effective_options arg))"
  by (simp add: install_def Let_def fold_load_id loadScript_def initVueRouterGuard_frame
      split: option.splits gtm_id.splits)

lemma example_world_state:
  "gtmPlugin example_world = Some (browser_GtmPlugin (effective_options (Some example_options)))"
  "afterEach_hooks example_world = [example_guard]"
  "trackView_calls example_world = []"
  "Vue_nextTick example_world = []"
  by (simp_all add: example_world_def install_def Let_def load_id_spec initVueRouterGuard_def
      afterEach_def effective_options_def example_options_def example_guard_def
      browser_GtmPlugin_def initial_world_def)

lemma example_passes:
  "\<not> ignored_route (guard_ignoredViews example_guard) checkout_route unnamed_route"
  "\<not> ignored_route (guard_ignoredViews example_guard) empty_name_route unnamed_route"
  "awaited (guard_deriveAdditionalEventData example_guard to from) = Some [''x'' \<mapsto> JNum 1]"
  by (simp_all add: ignored_route_def example_guard_def checkout_route_def
      empty_name_route_def example_derive_def)

lemma example_dispatch:
  "dispatch (guard_trackOnNextTick example_guard) args w = trackView args w"
  by (simp add: dispatch_def example_guard_def)

section \<open>The filter of the navigation guard\<close>

text \<open>
  C1, as the code has it. The hook returns at once and without any effect
  (no \<^verbatim>\<open>trackView\<close> call, no callback queued) when the route name is not a
  string, or the ignore list holds the name, or the ignore predicate is true
  for \<open>(to, from)\<close>. In every other case it goes on to the dispatch with the
  event name, URL and event data it derives, once the callback's result is
  there. The name test is \<^verbatim>\<open>typeof to.name !== 'string'\<close>: the empty string is
  a string, so a route named by the empty string is dispatched unless the
  ignore list or the predicate holds it back.
\<close>

theorem filter_skips_or_dispatches:
  "((\<forall>s. name to \<noteq> JStr s)
      \<or> (\<exists>xs s. guard_ignoredViews g = IgnoreList xs \<and> name to = JStr s \<and> s \<in> set xs)
      \<or> (\<exists>p. guard_ignoredViews g = IgnorePred p \<and> p to from)
     \<longrightarrow> afterEach_handler g to from w = (Resolved, w))
   \<and> (\<not> ((\<forall>s. name to \<noteq> JStr s)
          \<or> (\<exists>xs s. guard_ignoredViews g = IgnoreList xs \<and> name to = JStr s \<and> s \<in> set xs)
          \<or> (\<exists>p. guard_ignoredViews g = IgnorePred p \<and> p to from))
     \<longrightarrow> (\<exists>n. name to = JStr n \<and>
            (\<forall>d. awaited (guard_deriveAdditionalEventData g to from) = Some d \<longrightarrow>
               afterEach_handler g to from w =
                 (Resolved,
                  dispatch (guard_trackOnNextTick g)
                    (event_name to n, fullUrl (guard_vueRouter g) to,
                     additionalEventData d to) w))))
   \<and> (name to = JStr [] \<and> guard_ignoredViews g = IgnoreList xs \<and> [] \<notin> set xs
        \<and> awaited (guard_deriveAdditionalEventData g to from) = Some d
     \<longrightarrow> afterEach_handler g to from w =
           (Resolved,
            dispatch (guard_trackOnNextTick g)
              (event_name to [], fullUrl (guard_vueRouter g) to,
               additionalEventData d to) w))"
proof (intro conjI impI)
  assume "(\<forall>s. name to \<noteq> JStr s)
      \<or> (\<exists>xs s. guard_ignoredViews g = IgnoreList xs \<and> name to = JStr s \<and> s \<in> set xs)
      \<or> (\<exists>p. guard_ignoredViews g = IgnorePred p \<and> p to from)"
  then have "ignored_route (guard_ignoredViews g) to from"
    unfolding ignored_route_iff by blast
  then show "afterEach_handler g to from w = (Resolved, w)"
    by (rule handler_ignored)
next
  assume "\<not> ((\<forall>s. name to \<noteq> JStr s)
          \<or> (\<exists>xs s. guard_ignoredViews g = IgnoreList xs \<and> name to = JStr s \<and> s \<in> set xs)
          \<or> (\<exists>p. guard_ignoredViews g = IgnorePred p \<and> p to from))"
  then have pass: "\<not> ignored_route (guard_ignoredViews g) to from"
    unfolding ignored_route_iff by blast
  then obtain n where nm: "name to = JStr n" by (rule passes_filter_name)
  have "afterEach_handler g to from w =
          (Resolved,
           dispatch (guard_trackOnNextTick g)
             (event_name to n, fullUrl (guard_vueRouter g) to, additionalEventData d to) w)"
    if "awaited (guard_deriveAdditionalEventData g to from) = Some d" for d
    using handler_dispatches [OF pass that nm] .
  with nm show "\<exists>n. name to = JStr n \<and>
            (\<forall>d. awaited (guard_deriveAdditionalEventData g to from) = Some d \<longrightarrow>
               afterEach_handler g to from w =
                 (Resolved,
                  dispatch (guard_trackOnNextTick g)
                    (event_name to n, fullUrl (guard_vueRouter g) to,
                     additionalEventData d to) w))"
    by blast
next
  assume a: "name to = JStr [] \<and> guard_ignoredViews g = IgnoreList xs \<and> [] \<notin> set xs
        \<and> awaited (guard_deriveAdditionalEventData g to from) = Some d"
  then have pass: "\<not> ignored_route (guard_ignoredViews g) to from"
    by (auto simp add: ignored_route_def)
  from a have val: "awaited (guard_deriveAdditionalEventData g to from) = Some d"
    and nm: "name to = JStr []" by simp_all
  from handler_dispatches [OF pass val nm]
  show "afterEach_handler g to from w =
           (Resolved,
            dispatch (guard_trackOnNextTick g)
              (event_name to [], fullUrl (guard_vueRouter g) to,
               additionalEventData d to) w)" .
qed

text \<open>
  The theorem at the sample installation: an unnamed route changes nothing,
  and the route named by the empty string is tracked.
\<close>

theorem filter_skips_or_dispatches_witness:
  "afterEach_handler example_guard unnamed_route checkout_route example_world
     = (Resolved, example_world)
   \<and> afterEach_handler example_guard empty_name_route unnamed_route example_world
     = (Resolved, trackView ([], ''/app/c'', [''x'' \<mapsto> JNum 1]) example_world)"
proof -
  have skip: "\<forall>s. name unnamed_route \<noteq> JStr s"
    by (simp add: unnamed_route_def)
  have pass: "name empty_name_route = JStr [] \<and>
      guard_ignoredViews example_guard = IgnoreList [''admin''] \<and> [] \<notin> set [''admin''] \<and>
      awaited (guard_deriveAdditionalEventData example_guard empty_name_route unnamed_route)
        = Some [''x'' \<mapsto> JNum 1]"
    by (simp add: empty_name_route_def example_guard_def example_derive_def)
  have args: "event_name empty_name_route [] = []"
    "fullUrl (guard_vueRouter example_guard) empty_name_route = ''/app/c''"
    "additionalEventData [''x'' \<mapsto> JNum 1] empty_name_route = [''x'' \<mapsto> JNum 1]"
    by (simp_all add: event_name_def fullUrl_spec spec_fullUrl_def additionalEventData_def
        empty_name_route_def example_guard_def example_router_def)
  from filter_skips_or_dispatches [of unnamed_route example_guard checkout_route example_world]
    skip
  have first: "afterEach_handler example_guard unnamed_route checkout_route example_world
     = (Resolved, example_world)"
    by blast
  from filter_skips_or_dispatches
    [of empty_name_route example_guard unnamed_route example_world "[''admin'']"
      "[''x'' \<mapsto> JNum 1]"] pass
  have "afterEach_handler example_guard empty_name_route unnamed_route example_world =
           (Resolved,
            dispatch (guard_trackOnNextTick example_guard)
              (event_name empty_name_route [],
               fullUrl (guard_vueRouter example_guard) empty_name_route,
               additionalEventData [''x'' \<mapsto> JNum 1] empty_name_route) example_world)"
    by blast
  with first show ?thesis by (simp add: args example_dispatch)
qed

text \<open>
  The filter as the specification words it, with every falsy route name
  held back, fails: the empty string is falsy, and the navigation to the
  route it names is tracked all the same. The sample installation has
  registered the sample guard and made no tracking call yet; the hook run
  for that route records one \<^verbatim>\<open>trackView\<close> call.
\<close>

theorem empty_name_is_tracked:
  "\<not> truthy (name empty_name_route)
   \<and> afterEach_hooks example_world = [example_guard]
   \<and> trackView_calls example_world = []
   \<and> trackView_calls
       (snd (afterEach_handler example_guard empty_name_route unnamed_route example_world))
     = [([], ''/app/c'', [''x'' \<mapsto> JNum 1])]"
proof -
  have falsy: "\<not> truthy (name empty_name_route)"
    by (simp add: empty_name_route_def)
  have run: "afterEach_handler example_guard empty_name_route unnamed_route example_world =
      (Resolved,
       dispatch (guard_trackOnNextTick example_guard)
         (event_name empty_name_route [],
          fullUrl (guard_vueRouter example_guard) empty_name_route,
          additionalEventData [''x'' \<mapsto> JNum 1] empty_name_route) example_world)"
    by (rule handler_dispatches [OF example_passes(2) example_passes(3)])
      (simp add: empty_name_route_def)
  have args: "event_name empty_name_route [] = []"
    "fullUrl (guard_vueRouter example_guard) empty_name_route = ''/app/c''"
    "additionalEventData [''x'' \<mapsto> JNum 1] empty_name_route = [''x'' \<mapsto> JNum 1]"
    by (simp_all add: event_name_def fullUrl_spec spec_fullUrl_def additionalEventData_def
        empty_name_route_def example_guard_def example_router_def)
  have "trackView_calls
       (snd (afterEach_handler example_guard empty_name_route unnamed_route example_world))
     = [([], ''/app/c'', [''x'' \<mapsto> JNum 1])]"
    by (simp add: run args example_dispatch trackView_def example_world_state)
  with falsy show ?thesis by (simp add: example_world_state)
qed

section \<open>What the guard passes to \<^verbatim>\<open>trackView\<close>\<close>

text \<open>
  C2. The URL the hook hands to the dispatch is the router's base path
  (empty when absent), then one \<^verbatim>\<open>/\<close> unless the base already ends with \<^verbatim>\<open>/\<close>,
  then the full path of \<open>to\<close> without one leading \<^verbatim>\<open>/\<close>; and a navigation that
  passes the filter is dispatched with that URL once the callback's result is
  there. Base \<^verbatim>\<open>""\<close> (or none) with \<^verbatim>\<open>/a/b\<close> gives \<^verbatim>\<open>/a/b\<close>, base \<^verbatim>\<open>/app\<close> with \<^verbatim>\<open>c\<close>
  gives \<^verbatim>\<open>/app/c\<close>, and base \<^verbatim>\<open>/app/\<close> with \<^verbatim>\<open>/c\<close> gives \<^verbatim>\<open>/app/c\<close>.
\<close>

theorem url_reconstruction:
  "handler_resume g to n' d' w =
     dispatch (guard_trackOnNextTick g)
       (n', spec_fullUrl (base (guard_vueRouter g)) (fullPath to), additionalEventData d' to) w
   \<and> (\<not> ignored_route (guard_ignoredViews g) to from
        \<and> awaited (guard_deriveAdditionalEventData g to from) = Some d
      \<longrightarrow> (\<exists>n. name to = JStr n \<and>
             afterEach_handler g to from w =
               (Resolved,
                dispatch (guard_trackOnNextTick g)
                  (event_name to n,
                   spec_fullUrl (base (guard_vueRouter g)) (fullPath to),
                   additionalEventData d to) w)))
   \<and> fullUrl \<lparr>base = Some []\<rparr> \<lparr>name = a, fullPath = ''/a/b'', meta = m\<rparr> = ''/a/b''
   \<and> fullUrl \<lparr>base = None\<rparr> \<lparr>name = a, fullPath = ''/a/b'', meta = m\<rparr> = ''/a/b''
   \<and> fullUrl \<lparr>base = Some ''/app''\<rparr> \<lparr>name = a, fullPath = ''c'', meta = m\<rparr> = ''/app/c''
   \<and> fullUrl \<lparr>base = Some ''/app/''\<rparr> \<lparr>name = a, fullPath = ''/c'', meta = m\<rparr> = ''/app/c''"
proof -
  have resume: "handler_resume g to n' d' w =
     dispatch (guard_trackOnNextTick g)
       (n', spec_fullUrl (base (guard_vueRouter g)) (fullPath to), additionalEventData d' to) w"
    by (simp add: handler_resume_def fullUrl_spec)
  have run: "\<exists>n. name to = JStr n \<and>
             afterEach_handler g to from w =
               (Resolved,
                dispatch (guard_trackOnNextTick g)
                  (event_name to n,
                   spec_fullUrl (base (guard_vueRouter g)) (fullPath to),
                   additionalEventData d to) w)"
    if pass: "\<not> ignored_route (guard_ignoredViews g) to from"
      and val: "awaited (guard_deriveAdditionalEventData g to from) = Some d"
  proof -
    from pass obtain n where nm: "name to = JStr n" by (rule passes_filter_name)
    from handler_dispatches [OF pass val nm] nm show ?thesis
      by (auto simp add: fullUrl_spec)
  qed
  have e1: "fullUrl \<lparr>base = Some []\<rparr> \<lparr>name = a, fullPath = ''/a/b'', meta = m\<rparr> = ''/a/b''"
    by (simp add: fullUrl_spec spec_fullUrl_def)
  have e2: "fullUrl \<lparr>base = None\<rparr> \<lparr>name = a, fullPath = ''/a/b'', meta = m\<rparr> = ''/a/b''"
    by (simp add: fullUrl_spec spec_fullUrl_def)
  have e3: "fullUrl \<lparr>base = Some ''/app''\<rparr> \<lparr>name = a, fullPath = ''c'', meta = m\<rparr> = ''/app/c''"
    by (simp add: fullUrl_spec spec_fullUrl_def)
  have e4: "fullUrl \<lparr>base = Some ''/app/''\<rparr> \<lparr>name = a, fullPath = ''/c'', meta = m\<rparr> = ''/app/c''"
    by (simp add: fullUrl_spec spec_fullUrl_def)
  from resume run e1 e2 e3 e4 show ?thesis by blast
qed

text \<open>
  The theorem at the sample installation, for the route \<^verbatim>\<open>/c\<close> under the base
  \<^verbatim>\<open>/app\<close>: the one call recorded carries the URL \<^verbatim>\<open>/app/c\<close>.
\<close>

theorem url_reconstruction_witness:
  "\<not> ignored_route (guard_ignoredViews example_guard) checkout_route unnamed_route
   \<and> map (fst \<circ> snd)
       (trackView_calls
          (snd (afterEach_handler example_guard checkout_route unnamed_route example_world)))
     = [''/app/c'']"
proof -
  have url: "spec_fullUrl (base (guard_vueRouter example_guard)) (fullPath checkout_route)
      = ''/app/c''"
    by (simp add: spec_fullUrl_def example_guard_def example_router_def checkout_route_def)
  from url_reconstruction
    [of example_guard checkout_route _ _ example_world unnamed_route "[''x'' \<mapsto> JNum 1]"]
    example_passes(1) example_passes(3)
  obtain n where "afterEach_handler example_guard checkout_route unnamed_route example_world =
         (Resolved,
          dispatch (guard_trackOnNextTick example_guard)
            (event_name checkout_route n,
             spec_fullUrl (base (guard_vueRouter example_guard)) (fullPath checkout_route),
             additionalEventData [''x'' \<mapsto> JNum 1] checkout_route)
            example_world)"
    by blast
  then show ?thesis
    by (simp add: url example_dispatch example_passes(1) trackView_def example_world_state)
qed

text \<open>
  C3. The event name the hook fixes for a route named \<open>n\<close> is the meta field
  \<^verbatim>\<open>gtm\<close> when the route has a meta object and its \<^verbatim>\<open>gtm\<close> is a non-empty
  string, and the route name otherwise; a navigation that passes the filter
  is dispatched under that name once the callback's result is there. With
  \<^verbatim>\<open>to.meta.gtm = "Checkout"\<close> the event name is \<^verbatim>\<open>Checkout\<close>, whatever the route
  name.
\<close>

theorem event_name_derivation:
  "event_name to n' = spec_event_name to n'
   \<and> (\<not> ignored_route (guard_ignoredViews g) to from
        \<and> awaited (guard_deriveAdditionalEventData g to from) = Some d
      \<longrightarrow> (\<exists>n. name to = JStr n \<and>
             afterEach_handler g to from w =
               (Resolved,
                dispatch (guard_trackOnNextTick g)
                  (spec_event_name to n, fullUrl (guard_vueRouter g) to,
                   additionalEventData d to) w)))
   \<and> (\<not> ignored_route (guard_ignoredViews g) to from
        \<and> awaited (guard_deriveAdditionalEventData g to from) = Some d
        \<and> meta to = Some m \<and> m ''gtm'' = Some (JStr ''Checkout'')
      \<longrightarrow> afterEach_handler g to from w =
            (Resolved,
             dispatch (guard_trackOnNextTick g)
               (''Checkout'', fullUrl (guard_vueRouter g) to, additionalEventData d to) w))"
proof -
  have run: "\<exists>n. name to = JStr n \<and>
             afterEach_handler g to from w =
               (Resolved,
                dispatch (guard_trackOnNextTick g)
                  (spec_event_name to n, fullUrl (guard_vueRouter g) to,
                   additionalEventData d to) w)"
    if pass: "\<not> ignored_route (guard_ignoredViews g) to from"
      and val: "awaited (guard_deriveAdditionalEventData g to from) = Some d"
  proof -
    from pass obtain n where nm: "name to = JStr n" by (rule passes_filter_name)
    from handler_dispatches [OF pass val nm] nm show ?thesis
      by (auto simp add: event_name_spec)
  qed
  have checkout: "afterEach_handler g to from w =
            (Resolved,
             dispatch (guard_trackOnNextTick g)
               (''Checkout'', fullUrl (guard_vueRouter g) to, additionalEventData d to) w)"
    if pass: "\<not> ignored_route (guard_ignoredViews g) to from"
      and val: "awaited (guard_deriveAdditionalEventData g to from) = Some d"
      and gtm: "meta to = Some m" "m ''gtm'' = Some (JStr ''Checkout'')"
  proof -
    from run [OF pass val] obtain n where
      "afterEach_handler g to from w =
         (Resolved,
          dispatch (guard_trackOnNextTick g)
            (spec_event_name to n, fullUrl (guard_vueRouter g) to,
             additionalEventData d to) w)"
      by blast
    moreover from gtm have "spec_event_name to n = ''Checkout''"
      by (simp add: spec_event_name_def)
    ultimately show ?thesis by simp
  qed
  from event_name_spec [of to n'] run checkout show ?thesis by blast
qed

text \<open>
  The theorem at the sample installation: the navigation to the route named
  \<^verbatim>\<open>cart\<close> is recorded under the name \<^verbatim>\<open>Checkout\<close>.
\<close>

theorem event_name_derivation_witness:
  "name checkout_route = JStr ''cart''
   \<and> map fst
       (trackView_calls
          (snd (afterEach_handler example_guard checkout_route unnamed_route example_world)))
     = [''Checkout'']"
proof -
  have m: "meta checkout_route =
        Some [''gtm'' \<mapsto> JStr ''Checkout'',
              ''gtmAdditionalEventData'' \<mapsto> JObj [''x'' \<mapsto> JNum 2, ''y'' \<mapsto> JNum 3]]"
    "[''gtm'' \<mapsto> JStr ''Checkout'',
      ''gtmAdditionalEventData'' \<mapsto> JObj [''x'' \<mapsto> JNum 2, ''y'' \<mapsto> JNum 3]] ''gtm''
        = Some (JStr ''Checkout'')"
    by (simp_all add: checkout_route_def)
  from event_name_derivation
    [of checkout_route _ example_guard unnamed_route "[''x'' \<mapsto> JNum 1]" example_world
      "[''gtm'' \<mapsto> JStr ''Checkout'',
        ''gtmAdditionalEventData'' \<mapsto> JObj [''x'' \<mapsto> JNum 2, ''y'' \<mapsto> JNum 3]]"]
    example_passes(1) example_passes(3) m
  have "afterEach_handler example_guard checkout_route unnamed_route example_world =
         (Resolved,
          dispatch (guard_trackOnNextTick example_guard)
            (''Checkout'', fullUrl (guard_vueRouter example_guard) checkout_route,
             additionalEventData [''x'' \<mapsto> JNum 1] checkout_route)
            example_world)"
    by blast
  then show ?thesis
    by (simp add: example_dispatch trackView_def example_world_state checkout_route_def)
qed

text \<open>
  C4. The event data the hook hands to the dispatch is the awaited result of
  the callback with the meta field \<^verbatim>\<open>gtmAdditionalEventData\<close> merged over it,
  the meta value winning on a shared key; a navigation that passes the filter
  is dispatched with that data, the callback having been applied to
  \<open>(to, from)\<close>. A result \<^verbatim>\<open>{x:1}\<close> under the meta record \<^verbatim>\<open>{x:2,y:3}\<close> gives
  \<^verbatim>\<open>{x:2,y:3}\<close>. A guard set up without a callback uses one that returns the
  empty record.
\<close>

theorem event_data_merge:
  "handler_resume g to n' d' w =
     dispatch (guard_trackOnNextTick g)
       (n', fullUrl (guard_vueRouter g) to, shallow_merge d' (meta_event_data to)) w
   \<and> (\<not> ignored_route (guard_ignoredViews g) to from
        \<and> awaited (guard_deriveAdditionalEventData g to from) = Some d
      \<longrightarrow> (\<exists>n. name to = JStr n \<and>
             afterEach_handler g to from w =
               (Resolved,
                dispatch (guard_trackOnNextTick g)
                  (event_name to n, fullUrl (guard_vueRouter g) to,
                   shallow_merge d (meta_event_data to)) w)))
   \<and> additionalEventData [''x'' \<mapsto> JNum 1]
       \<lparr>name = a, fullPath = p,
        meta = Some [''gtmAdditionalEventData'' \<mapsto> JObj [''x'' \<mapsto> JNum 2, ''y'' \<mapsto> JNum 3]]\<rparr>
     = [''x'' \<mapsto> JNum 2, ''y'' \<mapsto> JNum 3]
   \<and> (\<exists>h. afterEach_hooks (initVueRouterGuard (Some r) iv t None w') = afterEach_hooks w' @ [h]
          \<and> (\<forall>to' from'. guard_deriveAdditionalEventData h to' from' = Returns Map.empty))"
proof -
  have resume: "handler_resume g to n' d' w =
     dispatch (guard_trackOnNextTick g)
       (n', fullUrl (guard_vueRouter g) to, shallow_merge d' (meta_event_data to)) w"
    by (simp add: handler_resume_def additionalEventData_spec)
  have run: "\<exists>n. name to = JStr n \<and>
             afterEach_handler g to from w =
               (Resolved,
                dispatch (guard_trackOnNextTick g)
                  (event_name to n, fullUrl (guard_vueRouter g) to,
                   shallow_merge d (meta_event_data to)) w)"
    if pass: "\<not> ignored_route (guard_ignoredViews g) to from"
      and val: "awaited (guard_deriveAdditionalEventData g to from) = Some d"
  proof -
    from pass obtain n where nm: "name to = JStr n" by (rule passes_filter_name)
    from handler_dispatches [OF pass val nm] nm show ?thesis
      by (auto simp add: additionalEventData_spec)
  qed
  have example: "additionalEventData [''x'' \<mapsto> JNum 1]
       \<lparr>name = a, fullPath = p,
        meta = Some [''gtmAdditionalEventData'' \<mapsto> JObj [''x'' \<mapsto> JNum 2, ''y'' \<mapsto> JNum 3]]\<rparr>
     = [''x'' \<mapsto> JNum 2, ''y'' \<mapsto> JNum 3]"
    by (simp add: additionalEventData_def get_prop_def)
  have default: "\<exists>h. afterEach_hooks (initVueRouterGuard (Some r) iv t None w') = afterEach_hooks w' @ [h]
          \<and> (\<forall>to' from'. guard_deriveAdditionalEventData h to' from' = Returns Map.empty)"
    by (simp add: initVueRouterGuard_def afterEach_def)
  from resume run example default show ?thesis by blast
qed

text \<open>
  The theorem at the sample installation: the callback returns \<^verbatim>\<open>{x:1}\<close>, the
  route's meta record is \<^verbatim>\<open>{x:2,y:3}\<close>, and the one call recorded carries
  \<^verbatim>\<open>{x:2,y:3}\<close>.
\<close>

theorem event_data_merge_witness:
  "awaited (guard_deriveAdditionalEventData example_guard checkout_route unnamed_route)
     = Some [''x'' \<mapsto> JNum 1]
   \<and> map (snd \<circ> snd)
       (trackView_calls
          (snd (afterEach_handler example_guard checkout_route unnamed_route example_world)))
     = [[''x'' \<mapsto> JNum 2, ''y'' \<mapsto> JNum 3]]"
proof -
  have merged: "shallow_merge [''x'' \<mapsto> JNum 1] (meta_event_data checkout_route)
      = [''x'' \<mapsto> JNum 2, ''y'' \<mapsto> JNum 3]"
    by (rule ext) (simp add: shallow_merge_def meta_event_data_def checkout_route_def)
  from event_data_merge
    [of example_guard checkout_route _ _ example_world unnamed_route "[''x'' \<mapsto> JNum 1]"]
    example_passes(1) example_passes(3)
  obtain n where "afterEach_handler example_guard checkout_route unnamed_route example_world =
         (Resolved,
          dispatch (guard_trackOnNextTick example_guard)
            (event_name checkout_route n,
             fullUrl (guard_vueRouter example_guard) checkout_route,
             shallow_merge [''x'' \<mapsto> JNum 1] (meta_event_data checkout_route))
            example_world)"
    by blast
  then show ?thesis
    by (simp add: merged example_dispatch example_passes(3) trackView_def example_world_state)
qed

section \<open>Installation\<close>



text \<open>
  C6. \<open>install\<close> merges the supplied options over the default record
  \<^verbatim>\<open>{ trackOnNextTick: false }\<close>: every field of the supplied options keeps its
  value, \<^verbatim>\<open>trackOnNextTick\<close> included when the options have it, and
  \<^verbatim>\<open>trackOnNextTick\<close> is \<^verbatim>\<open>false\<close> when they do not. With the options omitted the
  effective configuration has the empty string as its \<^verbatim>\<open>id\<close>. The singleton is
  constructed from the effective configuration.
\<close>

theorem options_defaults:
  "gtm_id (effective_options (Some opts)) = gtm_id opts
   \<and> queryParams (effective_options (Some opts)) = queryParams opts
   \<and> vueRouter (effective_options (Some opts)) = vueRouter opts
   \<and> vueRouterAdditionalEventData (effective_options (Some opts)) = vueRouterAdditionalEventData opts
   \<and> ignoredViews (effective_options (Some opts)) = ignoredViews opts
   \<and> other (effective_options (Some opts)) = other opts
   \<and> (\<forall>v. trackOnNextTick opts = Own v \<longrightarrow> trackOnNextTick (effective_options (Some opts)) = Own v)
   \<and> (trackOnNextTick opts = Absent \<longrightarrow>
        trackOnNextTick (effective_options (Some opts)) = Own (Some False))
   \<and> gtm_id (effective_options None) = SingleId []
   \<and> trackOnNextTick (effective_options None) = Own (Some False)
   \<and> gtmPlugin (install new_GtmPlugin arg w) = Some (new_GtmPlugin (effective_options arg))"
  by (simp add: effective_options_def default_options_def install_singleton)

text \<open>
  The theorem at the sample options, which leave \<^verbatim>\<open>trackOnNextTick\<close> out, and at
  the same options with \<^verbatim>\<open>trackOnNextTick: true\<close>.
\<close>

theorem options_defaults_witness:
  "trackOnNextTick example_options = Absent
   \<and> trackOnNextTick (effective_options (Some example_options)) = Own (Some False)
   \<and> trackOnNextTick
       (effective_options (Some (example_options \<lparr> trackOnNextTick := Own (Some True) \<rparr>)))
     = Own (Some True)
   \<and> vueRouter (effective_options (Some example_options)) = Some example_router
   \<and> gtm_id (effective_options None) = SingleId []"
proof -
  have absent: "trackOnNextTick example_options = Absent"
    by (simp add: example_options_def)
  have present: "trackOnNextTick (example_options \<lparr> trackOnNextTick := Own (Some True) \<rparr>)
      = Own (Some True)"
    by simp
  have router: "vueRouter example_options = Some example_router"
    by (simp add: example_options_def)
  from options_defaults [of example_options browser_GtmPlugin None initial_world]
    options_defaults [of "example_options \<lparr> trackOnNextTick := Own (Some True) \<rparr>"
      browser_GtmPlugin None initial_world]
    absent present router
  show ?thesis by simp
qed

text \<open>
  C7. When \<^verbatim>\<open>isInBrowserContext()\<close> of the constructed plugin is false,
  \<open>install\<close> registers no \<^verbatim>\<open>afterEach\<close> hook and makes no \<^verbatim>\<open>loadScript\<close> call,
  whatever the \<^verbatim>\<open>vueRouter\<close>, \<^verbatim>\<open>enabled\<close> and \<^verbatim>\<open>loadScript\<close> options are. The
  singleton is still constructed and assigned to the two accessors on the
  framework; nothing else changes.
\<close>

theorem install_outside_browser:
  assumes "\<not> isInBrowserContext (new_GtmPlugin (effective_options arg))"
  shows "install new_GtmPlugin arg w =
           w\<lparr> gtmPlugin := Some (new_GtmPlugin (effective_options arg)),
              Vue_gtm := Some (new_GtmPlugin (effective_options arg)),
              Vue_prototype_gtm := Some (new_GtmPlugin (effective_options arg)) \<rparr>
         \<and> afterEach_hooks (install new_GtmPlugin arg w) = afterEach_hooks w
         \<and> loadScript_calls (install new_GtmPlugin arg w) = loadScript_calls w"
  using assms by (simp add: install_def Let_def)

text \<open>
  The theorem for the sample options, which name a router and two container
  ids, installed outside a browser.
\<close>

theorem install_outside_browser_witness:
  "\<not> isInBrowserContext (server_GtmPlugin (effective_options (Some example_options)))
   \<and> vueRouter (effective_options (Some example_options)) = Some example_router
   \<and> afterEach_hooks (install server_GtmPlugin (Some example_options) initial_world) = []
   \<and> loadScript_calls (install server_GtmPlugin (Some example_options) initial_world) = []
   \<and> gtmPlugin (install server_GtmPlugin (Some example_options) initial_world)
     = Some \<lparr> isInBrowserContext = False, options_enabled = True, options_loadScript = True \<rparr>
   \<and> Vue_gtm (install server_GtmPlugin (Some example_options) initial_world)
     = Some \<lparr> isInBrowserContext = False, options_enabled = True, options_loadScript = True \<rparr>
   \<and> Vue_prototype_gtm (install server_GtmPlugin (Some example_options) initial_world)
     = Some \<lparr> isInBrowserContext = False, options_enabled = True, options_loadScript = True \<rparr>"
proof -
  have server:
    "\<not> isInBrowserContext (server_GtmPlugin (effective_options (Some example_options)))"
    by (simp add: server_GtmPlugin_def)
  have router: "vueRouter (effective_options (Some example_options)) = Some example_router"
    by (simp add: effective_options_def example_options_def)
  from install_outside_browser [of server_GtmPlugin "Some example_options" initial_world]
    server router
  show ?thesis by (simp add: initial_world_def server_GtmPlugin_def)
qed

section \<open>The singleton and the dispatch\<close>

text \<open>
  C8. While the module-level singleton is absent (\<open>install\<close> has never run),
  \<open>useGtm\<close> returns nothing, and a hook that reaches the dispatch skips the
  \<^verbatim>\<open>trackView\<close> call without an error: with \<^verbatim>\<open>trackOnNextTick\<close> unset the state is
  left as it was; with it set the callback is queued and makes no call when
  the tick runs it; and the hook's promise is resolved, not rejected.
\<close>

theorem missing_singleton_is_skipped:
  assumes "gtmPlugin w = None"
  shows "useGtm w = None
         \<and> (guard_trackOnNextTick g \<noteq> Some True \<longrightarrow> handler_resume g to n d w = w)
         \<and> (guard_trackOnNextTick g = Some True \<longrightarrow>
              handler_resume g to n d w =
                nextTick (n, fullUrl (guard_vueRouter g) to, additionalEventData d to) w
              \<and> trackView_calls (run_nextTick (handler_resume g to n d w)) = trackView_calls w)
         \<and> (awaited (guard_deriveAdditionalEventData g to from) = Some d' \<longrightarrow>
              fst (afterEach_handler g to from w) = Resolved
              \<and> trackView_calls (snd (afterEach_handler g to from w)) = trackView_calls w
              \<and> trackView_calls (run_nextTick (snd (afterEach_handler g to from w)))
                  = trackView_calls w)"
proof -
  have resume: "trackView_calls (handler_resume g to n d w) = trackView_calls w
      \<and> gtmPlugin (handler_resume g to n d w) = None" for n d
    using assms by (simp add: handler_resume_def dispatch_def nextTick_def trackView_def)
  have tick: "trackView_calls (run_nextTick v) = trackView_calls v" if "gtmPlugin v = None" for v
    using that by (simp add: run_nextTick_def fold_trackView_absent)
  have direct: "handler_resume g to n d w = w" if "guard_trackOnNextTick g \<noteq> Some True"
    using assms that by (simp add: handler_resume_def dispatch_def trackView_def)
  have deferred: "handler_resume g to n d w =
                nextTick (n, fullUrl (guard_vueRouter g) to, additionalEventData d to) w
              \<and> trackView_calls (run_nextTick (handler_resume g to n d w)) = trackView_calls w"
    if "guard_trackOnNextTick g = Some True"
  proof -
    have "handler_resume g to n d w =
                nextTick (n, fullUrl (guard_vueRouter g) to, additionalEventData d to) w"
      using that by (simp add: handler_resume_def dispatch_def)
    moreover have "trackView_calls (run_nextTick (handler_resume g to n d w)) = trackView_calls w"
      using resume [of n d] tick [of "handler_resume g to n d w"] by simp
    ultimately show ?thesis by blast
  qed
  have run: "fst (afterEach_handler g to from w) = Resolved
              \<and> trackView_calls (snd (afterEach_handler g to from w)) = trackView_calls w
              \<and> trackView_calls (run_nextTick (snd (afterEach_handler g to from w)))
                  = trackView_calls w"
    if val: "awaited (guard_deriveAdditionalEventData g to from) = Some d'"
  proof (cases "ignored_route (guard_ignoredViews g) to from")
    case True
    then show ?thesis using assms tick by (simp add: handler_ignored)
  next
    case False
    then obtain m where nm: "name to = JStr m" by (rule passes_filter_name)
    have "afterEach_handler g to from w = (Resolved, handler_resume g to (event_name to m) d' w)"
      using handler_dispatches [OF False val nm] by (simp add: handler_resume_def)
    then show ?thesis using resume tick by simp
  qed
  have "useGtm w = None"
    using assms by (simp add: useGtm_def)
  with direct deferred run show ?thesis by blast
qed

text \<open>
  The theorem before any installation, for the sample guard and the same
  guard with \<^verbatim>\<open>trackOnNextTick\<close> set.
\<close>

theorem missing_singleton_is_skipped_witness:
  "gtmPlugin initial_world = None
   \<and> useGtm initial_world = None
   \<and> afterEach_handler example_guard checkout_route unnamed_route initial_world
     = (Resolved, initial_world)
   \<and> fst (afterEach_handler (example_guard \<lparr> guard_trackOnNextTick := Some True \<rparr>)
            checkout_route unnamed_route initial_world) = Resolved
   \<and> trackView_calls
       (run_nextTick
          (snd (afterEach_handler (example_guard \<lparr> guard_trackOnNextTick := Some True \<rparr>)
                  checkout_route unnamed_route initial_world))) = []"
proof -
  have absent: "gtmPlugin initial_world = None"
    by (simp add: initial_world_def)
  have val: "awaited (guard_deriveAdditionalEventData
        (example_guard \<lparr> guard_trackOnNextTick := Some True \<rparr>) checkout_route unnamed_route)
      = Some [''x'' \<mapsto> JNum 1]"
    by (simp add: example_guard_def example_derive_def)
  have direct: "guard_trackOnNextTick example_guard \<noteq> Some True"
    by (simp add: example_guard_def)
  have run: "afterEach_handler example_guard checkout_route unnamed_route initial_world =
      (Resolved,
       handler_resume example_guard checkout_route (event_name checkout_route ''cart'')
         [''x'' \<mapsto> JNum 1] initial_world)"
    using handler_dispatches [OF example_passes(1) example_passes(3), of "''cart''" initial_world]
    by (simp add: handler_resume_def checkout_route_def)
  from missing_singleton_is_skipped
    [OF absent, of example_guard checkout_route "event_name checkout_route ''cart''"
      "[''x'' \<mapsto> JNum 1]"] direct
  have first: "useGtm initial_world = None
      \<and> handler_resume example_guard checkout_route (event_name checkout_route ''cart'')
          [''x'' \<mapsto> JNum 1] initial_world = initial_world"
    by blast
  from missing_singleton_is_skipped
    [OF absent, of "example_guard \<lparr> guard_trackOnNextTick := Some True \<rparr>"
      checkout_route _ _ unnamed_route "[''x'' \<mapsto> JNum 1]"] val
  have second: "fst (afterEach_handler (example_guard \<lparr> guard_trackOnNextTick := Some True \<rparr>)
            checkout_route unnamed_route initial_world) = Resolved
      \<and> trackView_calls
         (run_nextTick
            (snd (afterEach_handler (example_guard \<lparr> guard_trackOnNextTick := Some True \<rparr>)
                    checkout_route unnamed_route initial_world)))
        = trackView_calls initial_world"
    by blast
  from absent first second run show ?thesis by (simp add: initial_world_def)
qed

text \<open>
  C9, as the code has it. The hook is an \<^verbatim>\<open>async\<close> function that awaits the
  callback's result before it dispatches: for a navigation that passes the
  filter, the router's call of the hook ends with the hook suspended at the
  \<^verbatim>\<open>await\<close> (or rejected, when the callback throws), whatever
  \<^verbatim>\<open>trackOnNextTick\<close> is, and the dispatch belongs to the hook's resumption.
  There, when \<^verbatim>\<open>trackOnNextTick\<close> is set, the dispatch makes no \<^verbatim>\<open>trackView\<close>
  call: it hands the call to \<^verbatim>\<open>Vue.nextTick\<close>, and the call is made when the
  framework runs its tick, after the hook has ended. When \<^verbatim>\<open>trackOnNextTick\<close>
  is not set, the dispatch is the \<^verbatim>\<open>trackView\<close> call itself, made by the resumed
  hook before it ends, and nothing is queued. So a navigation that passes
  the filter, with the callback's result there and the singleton installed,
  ends with the call recorded in the second case, and with the call queued
  and recorded only by the tick in the first.
\<close>

theorem dispatch_timing:
  "(\<not> ignored_route (guard_ignoredViews g) to from \<longrightarrow>
      (\<exists>m. name to = JStr m \<and>
         handler_begin g to from =
           (case guard_deriveAdditionalEventData g to from of
              Throws e \<Rightarrow> Raised e
            | Returns x \<Rightarrow> Awaiting (event_name to m) (Fulfils x)
            | ReturnsPromise q \<Rightarrow> Awaiting (event_name to m) q)))
   \<and> handler_begin (g\<lparr> guard_trackOnNextTick := t \<rparr>) to from = handler_begin g to from
   \<and> (\<not> ignored_route (guard_ignoredViews g) to from
        \<and> awaited (guard_deriveAdditionalEventData g to from) = Some d'
      \<longrightarrow> (\<exists>m. name to = JStr m \<and>
             afterEach_handler g to from w =
               (Resolved, handler_resume g to (event_name to m) d' w)))
   \<and> (guard_trackOnNextTick g = Some True \<longrightarrow>
      handler_resume g to n d w =
        nextTick (n, fullUrl (guard_vueRouter g) to, additionalEventData d to) w
      \<and> trackView_calls (handler_resume g to n d w) = trackView_calls w
      \<and> (gtmPlugin w = Some p \<longrightarrow>
           trackView_calls (run_nextTick (handler_resume g to n d w)) =
             trackView_calls w @ Vue_nextTick w
               @ [(n, fullUrl (guard_vueRouter g) to, additionalEventData d to)]))
   \<and> (guard_trackOnNextTick g \<noteq> Some True \<longrightarrow>
      handler_resume g to n d w =
        trackView (n, fullUrl (guard_vueRouter g) to, additionalEventData d to) w
      \<and> Vue_nextTick (handler_resume g to n d w) = Vue_nextTick w
      \<and> (gtmPlugin w = Some p \<longrightarrow>
           trackView_calls (handler_resume g to n d w) =
             trackView_calls w
               @ [(n, fullUrl (guard_vueRouter g) to, additionalEventData d to)]))
   \<and> (\<not> ignored_route (guard_ignoredViews g) to from
        \<and> awaited (guard_deriveAdditionalEventData g to from) = Some d'
        \<and> gtmPlugin w = Some p
      \<longrightarrow> (\<exists>args w'. afterEach_handler g to from w = (Resolved, w')
             \<and> (guard_trackOnNextTick g = Some True \<longrightarrow>
                  trackView_calls w' = trackView_calls w
                  \<and> Vue_nextTick w' = Vue_nextTick w @ [args]
                  \<and> trackView_calls (run_nextTick w') =
                      trackView_calls w @ Vue_nextTick w @ [args])
             \<and> (guard_trackOnNextTick g \<noteq> Some True \<longrightarrow>
                  trackView_calls w' = trackView_calls w @ [args]
                  \<and> Vue_nextTick w' = Vue_nextTick w)))"
proof -
  have suspended: "\<exists>m. name to = JStr m \<and>
         handler_begin g to from =
           (case guard_deriveAdditionalEventData g to from of
              Throws e \<Rightarrow> Raised e
            | Returns x \<Rightarrow> Awaiting (event_name to m) (Fulfils x)
            | ReturnsPromise q \<Rightarrow> Awaiting (event_name to m) q)"
    if pass: "\<not> ignored_route (guard_ignoredViews g) to from"
  proof -
    from pass obtain m where nm: "name to = JStr m" by (rule passes_filter_name)
    with pass have "handler_begin g to from =
           (case guard_deriveAdditionalEventData g to from of
              Throws e \<Rightarrow> Raised e
            | Returns x \<Rightarrow> Awaiting (event_name to m) (Fulfils x)
            | ReturnsPromise q \<Rightarrow> Awaiting (event_name to m) q)"
      by (simp add: handler_begin_def)
    with nm show ?thesis by blast
  qed
  have flag: "handler_begin (g\<lparr> guard_trackOnNextTick := t \<rparr>) to from = handler_begin g to from"
    by (simp add: handler_begin_def split: jsval.splits)
  have resumed: "\<exists>m. name to = JStr m \<and>
             afterEach_handler g to from w =
               (Resolved, handler_resume g to (event_name to m) d' w)"
    if pass: "\<not> ignored_route (guard_ignoredViews g) to from"
      and val: "awaited (guard_deriveAdditionalEventData g to from) = Some d'"
  proof -
    from pass obtain m where nm: "name to = JStr m" by (rule passes_filter_name)
    from handler_dispatches [OF pass val nm] nm show ?thesis
      by (auto simp add: handler_resume_def)
  qed
  have flush: "trackView_calls (run_nextTick (nextTick args w)) =
      trackView_calls w @ Vue_nextTick w @ [args]"
    if plugin: "gtmPlugin w = Some p" for args
  proof -
    have "gtmPlugin (nextTick args w) = Some p"
      using plugin by (simp add: nextTick_def)
    from run_nextTick_present [OF this]
    show ?thesis by (simp add: nextTick_def)
  qed
  have deferred: "handler_resume g to n d w = nextTick (n, u, x) w
      \<and> trackView_calls (handler_resume g to n d w) = trackView_calls w
      \<and> (gtmPlugin w = Some p \<longrightarrow>
           trackView_calls (run_nextTick (handler_resume g to n d w)) =
             trackView_calls w @ Vue_nextTick w @ [(n, u, x)])"
    if "guard_trackOnNextTick g = Some True"
      and "u = fullUrl (guard_vueRouter g) to" and "x = additionalEventData d to"
    for n d u x
  proof -
    from that have "handler_resume g to n d w = nextTick (n, u, x) w"
      by (simp add: handler_resume_def dispatch_def)
    then show ?thesis using flush [of "(n, u, x)"] by (simp add: nextTick_def)
  qed
  have direct: "handler_resume g to n d w = trackView (n, u, x) w
      \<and> Vue_nextTick (handler_resume g to n d w) = Vue_nextTick w
      \<and> (gtmPlugin w = Some p \<longrightarrow>
           trackView_calls (handler_resume g to n d w) = trackView_calls w @ [(n, u, x)])"
    if "guard_trackOnNextTick g \<noteq> Some True"
      and "u = fullUrl (guard_vueRouter g) to" and "x = additionalEventData d to"
    for n d u x
    using that
    by (simp add: handler_resume_def dispatch_def trackView_def split: option.splits)
  have run: "\<exists>args w'. afterEach_handler g to from w = (Resolved, w')
             \<and> (guard_trackOnNextTick g = Some True \<longrightarrow>
                  trackView_calls w' = trackView_calls w
                  \<and> Vue_nextTick w' = Vue_nextTick w @ [args]
                  \<and> trackView_calls (run_nextTick w') =
                      trackView_calls w @ Vue_nextTick w @ [args])
             \<and> (guard_trackOnNextTick g \<noteq> Some True \<longrightarrow>
                  trackView_calls w' = trackView_calls w @ [args]
                  \<and> Vue_nextTick w' = Vue_nextTick w)"
    if pass: "\<not> ignored_route (guard_ignoredViews g) to from"
      and val: "awaited (guard_deriveAdditionalEventData g to from) = Some d'"
      and plugin: "gtmPlugin w = Some p"
  proof -
    from pass obtain m where nm: "name to = JStr m" by (rule passes_filter_name)
    define args where
      "args = (event_name to m, fullUrl (guard_vueRouter g) to, additionalEventData d' to)"
    have resume: "afterEach_handler g to from w =
        (Resolved, handler_resume g to (event_name to m) d' w)"
      using handler_dispatches [OF pass val nm] by (simp add: handler_resume_def)
    have a: "trackView_calls (handler_resume g to (event_name to m) d' w) = trackView_calls w
        \<and> Vue_nextTick (handler_resume g to (event_name to m) d' w) = Vue_nextTick w @ [args]
        \<and> trackView_calls (run_nextTick (handler_resume g to (event_name to m) d' w)) =
            trackView_calls w @ Vue_nextTick w @ [args]"
      if "guard_trackOnNextTick g = Some True"
    proof -
      note f = deferred [OF that refl refl, of "event_name to m" d', folded args_def]
      from f have "Vue_nextTick (handler_resume g to (event_name to m) d' w) =
          Vue_nextTick (nextTick args w)"
        by simp
      then have "Vue_nextTick (handler_resume g to (event_name to m) d' w) =
          Vue_nextTick w @ [args]"
        by (simp add: nextTick_def)
      with f plugin show ?thesis by blast
    qed
    have b: "trackView_calls (handler_resume g to (event_name to m) d' w) =
          trackView_calls w @ [args]
        \<and> Vue_nextTick (handler_resume g to (event_name to m) d' w) = Vue_nextTick w"
      if "guard_trackOnNextTick g \<noteq> Some True"
      using direct [OF that refl refl, of "event_name to m" d', folded args_def] plugin
      by blast
    from resume a b show ?thesis by blast
  qed
  from suspended flag resumed
    deferred [OF _ refl refl, of n d] direct [OF _ refl refl, of n d] run
  show ?thesis by blast
qed

text \<open>
  The theorem at the sample installation, for the sample guard and the same
  guard with \<^verbatim>\<open>trackOnNextTick\<close> set: the router's call leaves either hook
  suspended at the \<^verbatim>\<open>await\<close>; resumed, the first records the call and the
  second queues it for the tick.
\<close>

theorem dispatch_timing_witness:
  "handler_begin example_guard checkout_route unnamed_route
     = Awaiting ''Checkout'' (Fulfils [''x'' \<mapsto> JNum 1])
   \<and> handler_begin (example_guard \<lparr> guard_trackOnNextTick := Some True \<rparr>)
       checkout_route unnamed_route
     = Awaiting ''Checkout'' (Fulfils [''x'' \<mapsto> JNum 1])
   \<and> (\<exists>args. trackView_calls
       (snd (afterEach_handler example_guard checkout_route unnamed_route example_world))
      = [args]
     \<and> Vue_nextTick
       (snd (afterEach_handler example_guard checkout_route unnamed_route example_world))
      = [])
   \<and> (\<exists>args. trackView_calls
       (snd (afterEach_handler (example_guard \<lparr> guard_trackOnNextTick := Some True \<rparr>)
               checkout_route unnamed_route example_world))
      = []
     \<and> Vue_nextTick
       (snd (afterEach_handler (example_guard \<lparr> guard_trackOnNextTick := Some True \<rparr>)
               checkout_route unnamed_route example_world))
      = [args]
     \<and> trackView_calls
       (run_nextTick
          (snd (afterEach_handler (example_guard \<lparr> guard_trackOnNextTick := Some True \<rparr>)
                  checkout_route unnamed_route example_world)))
      = [args])"
proof -
  have direct: "guard_trackOnNextTick example_guard \<noteq> Some True"
    by (simp add: example_guard_def)
  have deferred: "guard_trackOnNextTick (example_guard \<lparr> guard_trackOnNextTick := Some True \<rparr>)
      = Some True"
    by simp
  have pass: "\<not> ignored_route
      (guard_ignoredViews (example_guard \<lparr> guard_trackOnNextTick := Some True \<rparr>))
      checkout_route unnamed_route"
    using example_passes(1) by simp
  have val: "awaited (guard_deriveAdditionalEventData
        (example_guard \<lparr> guard_trackOnNextTick := Some True \<rparr>) checkout_route unnamed_route)
      = Some [''x'' \<mapsto> JNum 1]"
    by (simp add: example_guard_def example_derive_def)
  have derive: "guard_deriveAdditionalEventData example_guard checkout_route unnamed_route
      = Returns [''x'' \<mapsto> JNum 1]"
    by (simp add: example_guard_def example_derive_def)
  have nm: "name checkout_route = JStr m \<longleftrightarrow> m = ''cart''" for m
    by (auto simp add: checkout_route_def)
  have ev: "event_name checkout_route ''cart'' = ''Checkout''"
    by (simp add: event_name_def checkout_route_def get_prop_def)
  note thm1 = dispatch_timing
    [of example_guard checkout_route unnamed_route "Some True" "[''x'' \<mapsto> JNum 1]"
      example_world "''cart''" "[''x'' \<mapsto> JNum 1]"
      "browser_GtmPlugin (effective_options (Some example_options))"]
  from thm1 example_passes(1)
  obtain m where "name checkout_route = JStr m"
    and "handler_begin example_guard checkout_route unnamed_route =
           (case guard_deriveAdditionalEventData example_guard checkout_route unnamed_route of
              Throws e \<Rightarrow> Raised e
            | Returns x \<Rightarrow> Awaiting (event_name checkout_route m) (Fulfils x)
            | ReturnsPromise q \<Rightarrow> Awaiting (event_name checkout_route m) q)"
    by blast
  then have suspended: "handler_begin example_guard checkout_route unnamed_route
     = Awaiting ''Checkout'' (Fulfils [''x'' \<mapsto> JNum 1])"
    by (simp add: nm derive ev)
  from thm1 have "handler_begin (example_guard \<lparr> guard_trackOnNextTick := Some True \<rparr>)
       checkout_route unnamed_route = handler_begin example_guard checkout_route unnamed_route"
    by blast
  with suspended have suspended': "handler_begin (example_guard \<lparr> guard_trackOnNextTick := Some True \<rparr>)
       checkout_route unnamed_route
     = Awaiting ''Checkout'' (Fulfils [''x'' \<mapsto> JNum 1])"
    by simp
  from thm1 example_passes(1) example_passes(3) example_world_state(1) direct
  have first: "\<exists>args. trackView_calls
       (snd (afterEach_handler example_guard checkout_route unnamed_route example_world))
      = [args]
     \<and> Vue_nextTick
       (snd (afterEach_handler example_guard checkout_route unnamed_route example_world))
      = []"
    by (auto simp add: example_world_state)
  from dispatch_timing
    [of "example_guard \<lparr> guard_trackOnNextTick := Some True \<rparr>" checkout_route
      unnamed_route "Some True" "[''x'' \<mapsto> JNum 1]" example_world
      "''cart''" "[''x'' \<mapsto> JNum 1]"
      "browser_GtmPlugin (effective_options (Some example_options))"]
    pass val example_world_state(1) deferred
  have second: "\<exists>args. trackView_calls
       (snd (afterEach_handler (example_guard \<lparr> guard_trackOnNextTick := Some True \<rparr>)
               checkout_route unnamed_route example_world))
      = []
     \<and> Vue_nextTick
       (snd (afterEach_handler (example_guard \<lparr> guard_trackOnNextTick := Some True \<rparr>)
               checkout_route unnamed_route example_world))
      = [args]
     \<and> trackView_calls
       (run_nextTick
          (snd (afterEach_handler (example_guard \<lparr> guard_trackOnNextTick := Some True \<rparr>)
                  checkout_route unnamed_route example_world)))
      = [args]"
    by (auto simp add: example_world_state)
  from suspended suspended' first second show ?thesis by blast
qed

text \<open>
  A \<^verbatim>\<open>trackView\<close> call made synchronously within the router's call of the
  hook, as the specification words the case of \<^verbatim>\<open>trackOnNextTick\<close> not set,
  does not occur. At the sample installation \<^verbatim>\<open>trackOnNextTick\<close> is \<^verbatim>\<open>false\<close> and
  the route passes the filter; the router's call of the hook ends with the
  hook suspended at the \<^verbatim>\<open>await\<close> and no call made, and the one \<^verbatim>\<open>trackView\<close>
  call is made by the resumption.
\<close>

theorem direct_call_follows_await:
  "guard_trackOnNextTick example_guard = Some False
   \<and> \<not> ignored_route (guard_ignoredViews example_guard) checkout_route unnamed_route
   \<and> handler_begin example_guard checkout_route unnamed_route
     = Awaiting ''Checkout'' (Fulfils [''x'' \<mapsto> JNum 1])
   \<and> trackView_calls example_world = []
   \<and> afterEach_handler example_guard checkout_route unnamed_route example_world
     = (Resolved,
        handler_resume example_guard checkout_route ''Checkout'' [''x'' \<mapsto> JNum 1]
          example_world)
   \<and> trackView_calls
       (handler_resume example_guard checkout_route ''Checkout'' [''x'' \<mapsto> JNum 1]
          example_world)
     = [(''Checkout'', ''/app/c'', [''x'' \<mapsto> JNum 2, ''y'' \<mapsto> JNum 3])]"
proof -
  have flag: "guard_trackOnNextTick example_guard = Some False"
    by (simp add: example_guard_def)
  have ev: "event_name checkout_route ''cart'' = ''Checkout''"
    by (simp add: event_name_def checkout_route_def get_prop_def)
  have suspended: "handler_begin example_guard checkout_route unnamed_route
     = Awaiting ''Checkout'' (Fulfils [''x'' \<mapsto> JNum 1])"
    using example_passes(1) ev
    by (simp add: handler_begin_def checkout_route_def example_guard_def example_derive_def)
  have run: "afterEach_handler example_guard checkout_route unnamed_route example_world
     = (Resolved,
        handler_resume example_guard checkout_route ''Checkout'' [''x'' \<mapsto> JNum 1]
          example_world)"
    by (simp add: afterEach_handler_def suspended)
  have url: "fullUrl (guard_vueRouter example_guard) checkout_route = ''/app/c''"
    by (simp add: fullUrl_spec spec_fullUrl_def example_guard_def example_router_def
        checkout_route_def)
  have data: "additionalEventData [''x'' \<mapsto> JNum 1] checkout_route
      = [''x'' \<mapsto> JNum 2, ''y'' \<mapsto> JNum 3]"
    by (simp add: additionalEventData_def get_prop_def checkout_route_def)
  have calls: "trackView_calls
       (handler_resume example_guard checkout_route ''Checkout'' [''x'' \<mapsto> JNum 1]
          example_world)
     = [(''Checkout'', ''/app/c'', [''x'' \<mapsto> JNum 2, ''y'' \<mapsto> JNum 3])]"
    by (simp add: handler_resume_def example_dispatch trackView_def example_world_state
        url data)
  from flag example_passes(1) suspended run calls show ?thesis
    by (simp add: example_world_state)
qed

section \<open>The missing-router warning\<close>

text \<open>
  C10. \<open>install\<close> calls \<open>initVueRouterGuard\<close> only with a router that is
  there, so no call of \<open>install\<close> emits the warning, and with the \<^verbatim>\<open>vueRouter\<close>
  option absent (or the options omitted) it registers no hook either. The
  warning, with nothing registered, comes only from \<open>initVueRouterGuard\<close>
  called directly with a falsy router; called with a router it does not warn.
\<close>

theorem warning_unreachable_from_install:
  "console_warnings (install new_GtmPlugin arg w) = console_warnings w
   \<and> (vueRouter (effective_options arg) = None \<longrightarrow>
        afterEach_hooks (install new_GtmPlugin arg w) = afterEach_hooks w)
   \<and> afterEach_hooks (install new_GtmPlugin None w) = afterEach_hooks w
   \<and> initVueRouterGuard None iv t f w =
        w\<lparr> console_warnings := console_warnings w @ [missing_router_warning] \<rparr>
   \<and> console_warnings (initVueRouterGuard (Some r) iv t f w) = console_warnings w"
proof -
  have a: "console_warnings (initVueRouterGuard (Some r) iv t f v) = console_warnings v"
    for r iv t f v
    by (simp add: initVueRouterGuard_def afterEach_def)
  have b: "console_warnings (install new_GtmPlugin arg w) = console_warnings w"
    by (simp add: install_def Let_def fold_load_id loadScript_def a
        split: option.splits gtm_id.splits)
  have c: "afterEach_hooks (install new_GtmPlugin arg w) = afterEach_hooks w"
    if "vueRouter (effective_options arg) = None" for arg
    using that
    by (simp add: install_def Let_def fold_load_id loadScript_def
        split: gtm_id.splits)
  have d: "vueRouter (effective_options None) = None"
    by (simp add: effective_options_def default_options_def)
  have e: "initVueRouterGuard None iv t f w =
        w\<lparr> console_warnings := console_warnings w @ [missing_router_warning] \<rparr>"
    by (simp add: initVueRouterGuard_def console_warn_def)
  from a b c [OF d] c e show ?thesis by simp
qed

text \<open>
  The theorem for the sample options without their router, installed in a
  browser, and for a direct call without a router.
\<close>

theorem warning_unreachable_from_install_witness:
  "vueRouter (effective_options (Some (example_options \<lparr> vueRouter := None \<rparr>))) = None
   \<and> console_warnings
       (install browser_GtmPlugin (Some (example_options \<lparr> vueRouter := None \<rparr>)) initial_world)
     = []
   \<and> afterEach_hooks
       (install browser_GtmPlugin (Some (example_options \<lparr> vueRouter := None \<rparr>)) initial_world)
     = []
   \<and> console_warnings (initVueRouterGuard None None None None initial_world)
     = [missing_router_warning]
   \<and> afterEach_hooks (initVueRouterGuard None None None None initial_world) = []"
proof -
  have none: "vueRouter (effective_options (Some (example_options \<lparr> vueRouter := None \<rparr>))) = None"
    by (simp add: effective_options_def)
  from warning_unreachable_from_install
    [of browser_GtmPlugin "Some (example_options \<lparr> vueRouter := None \<rparr>)" initial_world
      None None None] none
  show ?thesis by (simp add: initial_world_def)
qed

end
